theory Spec2Isabelle
  imports Complex_Main "HOL-Library.Multiset" "HOL-Library.Product_Lexorder"
begin

section \<open>JavaScript numbers and their rendering\<close>

text \<open>
  A JavaScript number is NaN, an infinity or a finite value. Every finite double is a
  rational, so finite values are modelled by \<open>rat\<close> (negative zero is zero: the code
  below never tells them apart). Conversion of a string to a number (\<open>Number(s)\<close>) is a
  language built-in; the functions that use it take it as the parameter \<open>Number\<close>.
\<close>

datatype number = NaN | NegInfinity | Num rat | PosInfinity

text \<open>\<open>Number.isFinite\<close>.\<close>

fun isFinite :: "number \<Rightarrow> bool" where
  "isFinite (Num q) = True"
| "isFinite n = False"

text \<open>
  The integer held by a number, if it holds one: \<open>Number.isInteger(n)\<close> is
  \<open>asInteger n \<noteq> None\<close>.
\<close>

fun asInteger :: "number \<Rightarrow> int option" where
  "asInteger (Num q) = (if of_int \<lfloor>q\<rfloor> = q then Some \<lfloor>q\<rfloor> else None)"
| "asInteger n = None"

definition isInteger :: "number \<Rightarrow> bool" where
  "isInteger n = (asInteger n \<noteq> None)"

text \<open>The relational operators \<open><\<close> and \<open>>=\<close>: false as soon as an operand is NaN.\<close>

fun numLess :: "number \<Rightarrow> number \<Rightarrow> bool" where
  "numLess NaN b = False"
| "numLess a NaN = False"
| "numLess PosInfinity b = False"
| "numLess a NegInfinity = False"
| "numLess NegInfinity b = True"
| "numLess a PosInfinity = True"
| "numLess (Num a) (Num b) = (a < b)"

definition numGreaterEq :: "number \<Rightarrow> number \<Rightarrow> bool" where
  "numGreaterEq a b = (a \<noteq> NaN \<and> b \<noteq> NaN \<and> \<not> numLess a b)"

text \<open>Strict equality \<open>===\<close> of two numbers: NaN equals nothing.\<close>

definition strictEq :: "number \<Rightarrow> number \<Rightarrow> bool" where
  "strictEq a b = (a \<noteq> NaN \<and> a = b)"

text \<open>\<open>Math.min\<close> and \<open>Math.max\<close> of two numbers: NaN if either is NaN.\<close>

definition Math_min :: "number \<Rightarrow> number \<Rightarrow> number" where
  "Math_min a b = (if a = NaN \<or> b = NaN then NaN else if numLess b a then b else a)"

definition Math_max :: "number \<Rightarrow> number \<Rightarrow> number" where
  "Math_max a b = (if a = NaN \<or> b = NaN then NaN else if numLess a b then b else a)"

text \<open>
  Decimal rendering of an integer, as a template literal \<open>${n}\<close> renders a number that
  holds an integer of magnitude below \<open>2^53\<close>: up to there every integer is a double and
  is printed with its exact digits.
\<close>

definition digit :: "nat \<Rightarrow> char" where
  "digit d =
     (if d = 0 then CHR ''0'' else if d = 1 then CHR ''1'' else if d = 2 then CHR ''2''
      else if d = 3 then CHR ''3'' else if d = 4 then CHR ''4'' else if d = 5 then CHR ''5''
      else if d = 6 then CHR ''6'' else if d = 7 then CHR ''7'' else if d = 8 then CHR ''8''
      else CHR ''9'')"

fun show_nat :: "nat \<Rightarrow> string" where
  "show_nat n = (if n < 10 then [digit n] else show_nat (n div 10) @ [digit (n mod 10)])"

declare show_nat.simps [simp del]

definition show_int :: "int \<Rightarrow> string" where
  "show_int i = (if i < 0 then CHR ''-'' # show_nat (nat (- i)) else show_nat (nat i))"

text \<open>
  Rendering of any number. JavaScript prints the shortest digits that read back as the
  same double: for an integer of magnitude below \<open>2^53\<close> these are its exact digits; for
  every other finite number (a fraction, or an integer from \<open>2^53\<close> up, where the digits
  are rounded and from \<open>10^21\<close> written with an exponent) the text is the parameter \<open>fmt\<close>.
\<close>

fun show_number :: "(rat \<Rightarrow> string) \<Rightarrow> number \<Rightarrow> string" where
  "show_number fmt NaN = ''NaN''"
| "show_number fmt NegInfinity = ''-Infinity''"
| "show_number fmt PosInfinity = ''Infinity''"
| "show_number fmt (Num q) =
     (if of_int \<lfloor>q\<rfloor> = q \<and> \<bar>q\<bar> < 2 ^ 53 then show_int \<lfloor>q\<rfloor> else fmt q)"

section \<open>Gates and the component state\<close>

text \<open>
  The \<open>Gate\<close> typedef of the source. \<open>column\<close> and \<open>target\<close> are grid indices
  (\<open>0..numColumns-1\<close> and \<open>0..numQubits-1\<close> in the typedef), held as integers; the
  optional properties \<open>control\<close>, \<open>pair\<close> and \<open>angle\<close> are \<open>None\<close> when
  absent (\<open>typeof g.control !== "number"\<close>).
\<close>

record gate =
  gate_id :: string
  type :: string
  column :: int
  target :: int
  control :: "int option"
  pair :: "int option"
  angle :: "number option"

text \<open>
  A session of the notebook service, as far as the code looks at it: an identity and its
  kernel connection (\<open>None\<close> for \<open>null\<close>), a kernel being named by a number.
\<close>

record session =
  session_id :: nat
  kernel :: "nat option"

text \<open>
  The React state of \<open>QuantumCircuitBuilder\<close> that the functions below read or write
  (\<open>jupyterSessionRef\<close> is the \<open>current\<close> of the ref).
\<close>

record state =
  numQubits :: number
  numColumns :: number
  gates :: "gate list"
  python :: string
  notebookCode :: string
  jupyterSessionRef :: "session option"
  jupyterOut :: string
  jupyterBusy :: bool
  jupyterBaseUrl :: string
  jupyterToken :: string

text \<open>The state of the first render, with nothing in \<open>localStorage\<close>.\<close>

definition initial :: state where
  "initial = \<lparr>numQubits = Num 3, numColumns = Num 12, gates = [], python = [],
     notebookCode = [], jupyterSessionRef = None, jupyterOut = [], jupyterBusy = False,
     jupyterBaseUrl = ''http://localhost:8888'', jupyterToken = []\<rparr>"

text \<open>\<open>uid(prefix)\<close>; \<open>rnd\<close> is the random base-36 suffix.\<close>

definition uid :: "string \<Rightarrow> string \<Rightarrow> string" where
  "uid rnd prefix = prefix @ ''_'' @ rnd"

section \<open>Occupancy of the grid\<close>

text \<open>The key \<open>`${column}:${row}`\<close> of a cell in the occupancy record.\<close>

definition cellKey :: "int \<Rightarrow> int \<Rightarrow> string" where
  "cellKey col row = show_int col @ '':'' @ show_int row"

text \<open>One round of the loop that fills the occupancy record.\<close>

definition occupancy_step :: "(string \<rightharpoonup> gate) \<Rightarrow> gate \<Rightarrow> (string \<rightharpoonup> gate)" where
  "occupancy_step m g =
     (let m1 = m(cellKey (column g) (target g) \<mapsto> g);
          m2 = (if type g = ''CNOT'' \<or> type g = ''CZ''
                then (case control g of Some c \<Rightarrow> m1(cellKey (column g) c \<mapsto> g) | None \<Rightarrow> m1)
                else m1)
      in (if type g = ''SWAP''
          then (case pair g of Some p \<Rightarrow> m2(cellKey (column g) p \<mapsto> g) | None \<Rightarrow> m2)
          else m2))"

definition occupancy :: "gate list \<Rightarrow> (string \<rightharpoonup> gate)" where
  "occupancy gs = foldl occupancy_step Map.empty gs"

definition cellHasGate :: "state \<Rightarrow> int \<Rightarrow> int \<Rightarrow> bool" where
  "cellHasGate s row col = (occupancy (gates s) (cellKey col row) \<noteq> None)"

section \<open>Editing the gate list\<close>

definition clearAll :: "state \<Rightarrow> state" where
  "clearAll s = s\<lparr>gates := [], python := [], notebookCode := []\<rparr>"

text \<open>\<open>prev.slice(0, -1)\<close>: all but the last element, the empty array for the empty array.\<close>

definition undo :: "state \<Rightarrow> state" where
  "undo s = s\<lparr>gates := butlast (gates s)\<rparr>"

text \<open>
  \<open>placeGate\<close> returns its boolean result and the next state. The \<open>alert\<close> calls only show
  a message and are left out.
\<close>

definition placeGate :: "gate \<Rightarrow> state \<Rightarrow> bool \<times> state" where
  "placeGate newGate s =
     (if cellHasGate s (target newGate) (column newGate) then (False, s)
      else if (type newGate = ''CNOT'' \<or> type newGate = ''CZ'') \<and> control newGate = None
        then (False, s)
      else if (type newGate = ''CNOT'' \<or> type newGate = ''CZ'') \<and>
              cellHasGate s (the (control newGate)) (column newGate)
        then (False, s)
      else if type newGate = ''SWAP'' \<and> pair newGate = None then (False, s)
      else if type newGate = ''SWAP'' \<and> cellHasGate s (the (pair newGate)) (column newGate)
        then (False, s)
      else (True, s\<lparr>gates := gates s @ [newGate]\<rparr>))"

text \<open>
  \<open>handleDrop\<close>. \<open>ty\<close> is the text of the drag (\<open>dataTransfer.getData\<close>), \<open>answer\<close> what
  \<open>window.prompt\<close> returns when the gate type asks for a parameter (\<open>None\<close> when the
  prompt is cancelled), \<open>row\<close> and \<open>col\<close> the cell. The other qubit of a two-qubit gate
  is stored once \<open>Number.isInteger\<close> has held of it, as the integer it holds.
\<close>

definition handleDrop ::
  "(string \<Rightarrow> number) \<Rightarrow> string \<Rightarrow> string option \<Rightarrow> string \<Rightarrow> int \<Rightarrow> int \<Rightarrow> state \<Rightarrow> state" where
  "handleDrop Number rnd answer ty row col s =
     (if ty = [] then s
      else if ty \<in> set [''H'', ''X'', ''Y'', ''Z'', ''S'', ''T'', ''MEASURE''] then
        snd (placeGate \<lparr>gate_id = uid rnd ty, type = ty, column = col, target = row,
                        control = None, pair = None, angle = None\<rparr> s)
      else if ty \<in> set [''RX'', ''RY'', ''RZ''] then
        (case answer of
           None \<Rightarrow> s
         | Some input \<Rightarrow>
             if \<not> isFinite (Number input) then s
             else snd (placeGate \<lparr>gate_id = uid rnd ty, type = ty, column = col, target = row,
                        control = None, pair = None, angle = Some (Number input)\<rparr> s))
      else if ty = ''CNOT'' \<or> ty = ''CZ'' then
        (case answer of
           None \<Rightarrow> s
         | Some input \<Rightarrow>
             if \<not> isInteger (Number input) \<or> numLess (Number input) (Num 0) \<or>
                numGreaterEq (Number input) (numQubits s) \<or>
                strictEq (Number input) (Num (of_int row))
             then s
             else snd (placeGate \<lparr>gate_id = uid rnd ty, type = ty, column = col,
                        target = row, control = asInteger (Number input), pair = None,
                        angle = None\<rparr> s))
      else if ty = ''SWAP'' then
        (case answer of
           None \<Rightarrow> s
         | Some input \<Rightarrow>
             if \<not> isInteger (Number input) \<or> numLess (Number input) (Num 0) \<or>
                numGreaterEq (Number input) (numQubits s) \<or>
                strictEq (Number input) (Num (of_int row))
             then s
             else snd (placeGate \<lparr>gate_id = uid rnd ty, type = ty, column = col,
                        target = row, control = None, pair = asInteger (Number input),
                        angle = None\<rparr> s))
      else s)"

text \<open>The predicate of the \<open>filter\<close> in \<open>removeGateAt\<close>: true for the gates that stay.\<close>

definition keepGate :: "int \<Rightarrow> int \<Rightarrow> gate \<Rightarrow> bool" where
  "keepGate row col g =
     (if column g \<noteq> col then True
      else if target g = row then False
      else if (type g = ''CNOT'' \<or> type g = ''CZ'') \<and> control g = Some row then False
      else if type g = ''SWAP'' \<and> pair g = Some row then False
      else True)"

definition removeGateAt :: "int \<Rightarrow> int \<Rightarrow> state \<Rightarrow> state" where
  "removeGateAt row col s = s\<lparr>gates := filter (keepGate row col) (gates s)\<rparr>"

section \<open>The Qubits and Columns inputs\<close>

text \<open>
  The \<open>onChange\<close> handlers of the two number inputs; \<open>v\<close> is \<open>e.target.value\<close>.
\<close>

definition qubitsOnChange :: "(string \<Rightarrow> number) \<Rightarrow> string \<Rightarrow> state \<Rightarrow> state" where
  "qubitsOnChange Number v s =
     s\<lparr>numQubits := Math_max (Num 1) (Math_min (Num 16) (Number v))\<rparr>"

definition columnsOnChange :: "(string \<Rightarrow> number) \<Rightarrow> string \<Rightarrow> state \<Rightarrow> state" where
  "columnsOnChange Number v s =
     s\<lparr>numColumns := Math_max (Num 1) (Math_min (Num 48) (Number v))\<rparr>"

section \<open>Generation of the Python text\<close>

text \<open>
  \<open>Array.prototype.sort\<close> with a comparison function is a stable sort: \<open>x\<close> stays before
  \<open>y\<close> unless the comparison of \<open>x\<close> with \<open>y\<close> is positive.
\<close>

fun insertSorted :: "('a \<Rightarrow> 'a \<Rightarrow> int) \<Rightarrow> 'a \<Rightarrow> 'a list \<Rightarrow> 'a list" where
  "insertSorted cmp x [] = [x]"
| "insertSorted cmp x (y # ys) =
     (if cmp x y \<le> 0 then x # y # ys else y # insertSorted cmp x ys)"

definition sortBy :: "('a \<Rightarrow> 'a \<Rightarrow> int) \<Rightarrow> 'a list \<Rightarrow> 'a list" where
  "sortBy cmp xs = foldr (insertSorted cmp) xs []"

text \<open>\<open>(a, b) => a.column - b.column || a.target - b.target\<close>\<close>

definition compareGates :: "gate \<Rightarrow> gate \<Rightarrow> int" where
  "compareGates a b =
     (if column a - column b \<noteq> 0 then column a - column b else target a - target b)"

definition sortedGates :: "gate list \<Rightarrow> gate list" where
  "sortedGates gs = sortBy compareGates gs"

text \<open>\<open>new Set(xs)\<close>: the distinct elements in the order of their first occurrence.\<close>

definition setAdd :: "'a list \<Rightarrow> 'a \<Rightarrow> 'a list" where
  "setAdd acc x = (if x \<in> set acc then acc else acc @ [x])"

definition newSet :: "'a list \<Rightarrow> 'a list" where
  "newSet xs = foldl setAdd [] xs"

definition markedMeasure :: "gate list \<Rightarrow> int list" where
  "markedMeasure gs =
     newSet (map target (filter (\<lambda>g. type g = ''MEASURE'') (sortedGates gs)))"

text \<open>A template literal renders an absent property as \<open>undefined\<close>.\<close>

definition show_optional :: "int option \<Rightarrow> string" where
  "show_optional v = (case v of None \<Rightarrow> ''undefined'' | Some i \<Rightarrow> show_int i)"

text \<open>\<open>g.angle ?? 0\<close>\<close>

definition angleOrZero :: "gate \<Rightarrow> number" where
  "angleOrZero g = (case angle g of None \<Rightarrow> Num 0 | Some a \<Rightarrow> a)"

text \<open>The \<open>switch\<close> on the gate type: the lines it pushes for one gate.\<close>

definition gateLines :: "(rat \<Rightarrow> string) \<Rightarrow> gate \<Rightarrow> string list" where
  "gateLines fmt g =
     (if type g = ''H'' then [''qc.h('' @ show_int (target g) @ '')\<newline>'']
      else if type g = ''X'' then [''qc.x('' @ show_int (target g) @ '')\<newline>'']
      else if type g = ''Y'' then [''qc.y('' @ show_int (target g) @ '')\<newline>'']
      else if type g = ''Z'' then [''qc.z('' @ show_int (target g) @ '')\<newline>'']
      else if type g = ''S'' then [''qc.s('' @ show_int (target g) @ '')\<newline>'']
      else if type g = ''T'' then [''qc.t('' @ show_int (target g) @ '')\<newline>'']
      else if type g = ''RX'' then
        [''qc.rx('' @ show_number fmt (angleOrZero g) @ '', '' @ show_int (target g) @ '')\<newline>'']
      else if type g = ''RY'' then
        [''qc.ry('' @ show_number fmt (angleOrZero g) @ '', '' @ show_int (target g) @ '')\<newline>'']
      else if type g = ''RZ'' then
        [''qc.rz('' @ show_number fmt (angleOrZero g) @ '', '' @ show_int (target g) @ '')\<newline>'']
      else if type g = ''CNOT'' then
        [''qc.cx('' @ show_optional (control g) @ '', '' @ show_int (target g) @ '')\<newline>'']
      else if type g = ''CZ'' then
        [''qc.cz('' @ show_optional (control g) @ '', '' @ show_int (target g) @ '')\<newline>'']
      else if type g = ''SWAP'' then
        [''qc.swap('' @ show_int (target g) @ '', '' @ show_optional (pair g) @ '')\<newline>'']
      else if type g = ''MEASURE'' then []
      else [])"

definition columnComment :: "int \<Rightarrow> string" where
  "columnComment k = ''\<newline># --- Column '' @ show_int k @ '' ---\<newline>''"

text \<open>
  The loop over the sorted gates, from the value of \<open>currentCol\<close> at its start: the lines
  it pushes, in order.
\<close>

fun columnLoop :: "(rat \<Rightarrow> string) \<Rightarrow> int \<Rightarrow> gate list \<Rightarrow> string list" where
  "columnLoop fmt currentCol [] = []"
| "columnLoop fmt currentCol (g # gs) =
     (if column g \<noteq> currentCol
      then columnComment (column g) # gateLines fmt g @ columnLoop fmt (column g) gs
      else gateLines fmt g @ columnLoop fmt currentCol gs)"

definition columnSection :: "(rat \<Rightarrow> string) \<Rightarrow> gate list \<Rightarrow> string list" where
  "columnSection fmt gs = columnLoop fmt (- 1) (sortedGates gs)"

definition measureLine :: "int \<Rightarrow> string" where
  "measureLine q = ''qc.measure('' @ show_int q @ '', '' @ show_int q @ '')\<newline>''"

definition measureLoop :: string where
  "measureLoop = ''for q in range(n_qubits):\<newline>    qc.measure(q, q)\<newline>''"

definition measureSection :: "gate list \<Rightarrow> string list" where
  "measureSection gs =
     (if markedMeasure gs \<noteq> []
      then map measureLine (sortBy (\<lambda>a b. a - b) (markedMeasure gs))
      else [measureLoop])"

definition prologue :: "(rat \<Rightarrow> string) \<Rightarrow> number \<Rightarrow> string list" where
  "prologue fmt n =
     [''# Auto-generated by Quantum Circuit Builder (React)\<newline>'',
      ''# Requires: qiskit, qiskit-aer\<newline>'',
      ''from qiskit import QuantumCircuit\<newline>from qiskit_aer import AerSimulator\<newline>\<newline>'',
      ''n_qubits = '' @ show_number fmt n @ ''\<newline>'',
      ''qc = QuantumCircuit(n_qubits, n_qubits)\<newline>\<newline>'']"

definition epilogue :: string where
  "epilogue =
     ''\<newline># Simulate with AerSimulator\<newline>'' @
     ''sim = AerSimulator()\<newline>'' @
     ''result = sim.run(qc, shots=1024).result()\<newline>'' @
     ''counts = result.get_counts()\<newline>'' @
     ''print(counts)\<newline>''"

text \<open>The array \<open>lines\<close> when the function joins it.\<close>

definition pythonLines :: "(rat \<Rightarrow> string) \<Rightarrow> state \<Rightarrow> string list" where
  "pythonLines fmt s =
     prologue fmt (numQubits s) @ columnSection fmt (gates s) @
     [''\<newline># Measurement\<newline>''] @ measureSection (gates s) @ [epilogue]"

definition generatePython :: "(rat \<Rightarrow> string) \<Rightarrow> state \<Rightarrow> state" where
  "generatePython fmt s =
     (let code = concat (pythonLines fmt s) in s\<lparr>python := code, notebookCode := code\<rparr>)"

section \<open>Running the text on a notebook kernel\<close>

text \<open>
  The notebook service is outside the program. What the program asks of it is kept in a
  log: the sessions it asked to start and the execute requests it sent, each with the
  kernel it was sent to. What the service answers is a parameter of the functions:
  \<open>startNew\<close> gives the session for a start request, or the text of the error it
  throws; \<open>reply\<close> gives, for an execute request, the IOPub messages and then \<open>None\<close> when
  \<open>future.done\<close> resolves, or the text of the error when it rejects.
\<close>

record start_request =
  req_baseUrl :: string
  req_token :: "string option"
  req_name :: string
  req_type :: string
  req_path :: string
  req_kernel :: string

record execute_request =
  code :: string
  stop_on_error :: bool

record service_log =
  started :: "start_request list"
  executed :: "(nat \<times> execute_request) list"

datatype iopub =
    Stream "string option"
  | ErrorMessage string string "string list option"
  | ExecuteResult "string option"
  | DisplayData "string option"
  | OtherMessage

text \<open>\<open>xs.join(sep)\<close>\<close>

fun join :: "string \<Rightarrow> string list \<Rightarrow> string" where
  "join sep [] = []"
| "join sep [x] = x"
| "join sep (x # y # ys) = x @ sep @ join sep (y # ys)"

text \<open>
  The \<open>onIOPub\<close> handler, on the output so far. The argument of a message is its \<open>text\<close>,
  its \<open>ename\<close>, \<open>evalue\<close> and \<open>traceback\<close>, or the \<open>text/plain\<close> entry of its data, \<open>None\<close>
  when the property is absent.
\<close>

fun onIOPub :: "string \<Rightarrow> iopub \<Rightarrow> string" where
  "onIOPub prev (Stream t) = prev @ (case t of None \<Rightarrow> [] | Some x \<Rightarrow> x)"
| "onIOPub prev (ErrorMessage ename evalue tb) =
     prev @ ''\<newline>[ERR] '' @ ename @ '': '' @ evalue @ ''\<newline>'' @
     join ''\<newline>'' (case tb of None \<Rightarrow> [] | Some l \<Rightarrow> l) @ ''\<newline>''"
| "onIOPub prev (ExecuteResult d) =
     (case d of None \<Rightarrow> prev | Some x \<Rightarrow> if x = [] then prev else prev @ x @ ''\<newline>'')"
| "onIOPub prev (DisplayData d) =
     (case d of None \<Rightarrow> prev | Some x \<Rightarrow> if x = [] then prev else prev @ x @ ''\<newline>'')"
| "onIOPub prev OtherMessage = prev"

text \<open>
  \<open>ensureJupyterSession\<close> returns the session or the error thrown, the next state and the
  log.
\<close>

definition startSession ::
  "(start_request \<Rightarrow> string + session) \<Rightarrow> state \<Rightarrow> service_log \<Rightarrow>
   (string + session) \<times> state \<times> service_log" where
  "startSession startNew s w =
     (let req = \<lparr>req_baseUrl = jupyterBaseUrl s,
                 req_token = (if jupyterToken s = [] then None else Some (jupyterToken s)),
                 req_name = ''quantum-react-session'', req_type = ''notebook'',
                 req_path = ''quantum-react.ipynb'', req_kernel = ''python3''\<rparr>;
          w' = w\<lparr>started := started w @ [req]\<rparr>
      in (case startNew req of
            Inl e \<Rightarrow> (Inl e, s, w')
          | Inr session \<Rightarrow> (Inr session, s\<lparr>jupyterSessionRef := Some session\<rparr>, w')))"

definition ensureJupyterSession ::
  "(start_request \<Rightarrow> string + session) \<Rightarrow> state \<Rightarrow> service_log \<Rightarrow>
   (string + session) \<times> state \<times> service_log" where
  "ensureJupyterSession startNew s w =
     (case jupyterSessionRef s of
        None \<Rightarrow> startSession startNew s w
      | Some current \<Rightarrow>
          if kernel current \<noteq> None then (Inr current, s, w)
          else startSession startNew s w)"

text \<open>
  \<open>runOnJupyter\<close>. The \<open>python\<close> it sends is the constant of the render that made the
  function, so the text of the state it is called in, also when that text is empty and
  \<open>generatePython\<close> has just set the next one. \<open>nullError\<close> is the text of the TypeError of
  \<open>session.kernel.requestExecute\<close> on a session whose kernel is \<open>null\<close>.
\<close>

definition failed :: "string \<Rightarrow> state \<Rightarrow> state" where
  "failed e s = s\<lparr>jupyterOut := jupyterOut s @ ''\<newline>[ERR] '' @ e @ ''\<newline>'',
     jupyterBusy := False\<rparr>"

definition runOnJupyter ::
  "(rat \<Rightarrow> string) \<Rightarrow> (start_request \<Rightarrow> string + session) \<Rightarrow>
   (nat \<Rightarrow> execute_request \<Rightarrow> iopub list \<times> string option) \<Rightarrow> string \<Rightarrow>
   state \<Rightarrow> service_log \<Rightarrow> state \<times> service_log" where
  "runOnJupyter fmt startNew reply nullError s w =
     (let s1 = (if python s = [] then generatePython fmt s else s);
          s2 = s1\<lparr>jupyterBusy := True, jupyterOut := []\<rparr>
      in (case ensureJupyterSession startNew s2 w of
            (Inl e, s3, w3) \<Rightarrow> (failed e s3, w3)
          | (Inr session, s3, w3) \<Rightarrow>
              (case kernel session of
                 None \<Rightarrow> (failed nullError s3, w3)
               | Some k \<Rightarrow>
                   (let request = \<lparr>code = python s, stop_on_error = True\<rparr>;
                        w4 = w3\<lparr>executed := executed w3 @ [(k, request)]\<rparr>;
                        s4 = s3\<lparr>jupyterOut :=
                               foldl onIOPub (jupyterOut s3) (fst (reply k request))\<rparr>
                    in (case snd (reply k request) of
                          Some e \<Rightarrow> (failed e s4, w4)
                        | None \<Rightarrow>
                            (s4\<lparr>jupyterOut := jupyterOut s4 @ ''\<newline>[done]\<newline>'',
                                jupyterBusy := False\<rparr>, w4))))))"

section \<open>Notions used to state the properties\<close>

text \<open>
  A gate occupies the cell of its target and, for CNOT and CZ, the cell of its control,
  for SWAP the cell of its pair, all in its own column.
\<close>

definition occupies :: "gate \<Rightarrow> int \<Rightarrow> int \<Rightarrow> bool" where
  "occupies g row col =
     (column g = col \<and>
      (target g = row \<or>
       ((type g = ''CNOT'' \<or> type g = ''CZ'') \<and> control g = Some row) \<or>
       (type g = ''SWAP'' \<and> pair g = Some row)))"

definition occupied :: "gate list \<Rightarrow> int \<Rightarrow> int \<Rightarrow> bool" where
  "occupied gs row col = (\<exists>g \<in> set gs. occupies g row col)"

text \<open>Two gates are apart when no cell is occupied by both.\<close>

definition apart :: "gate \<Rightarrow> gate \<Rightarrow> bool" where
  "apart g h = (\<forall>row col. \<not> (occupies g row col \<and> occupies h row col))"

definition wellPlaced :: "gate \<Rightarrow> bool" where
  "wellPlaced g = (control g \<noteq> Some (target g) \<and> pair g \<noteq> Some (target g))"

text \<open>
  The states the user can reach from an empty grid by dropping gates, double-clicking
  cells, Undo and Clear, and by changing the number of qubits in between.
\<close>

inductive reachable :: "(string \<Rightarrow> number) \<Rightarrow> state \<Rightarrow> bool" for Number where
  start: "gates s = [] \<Longrightarrow> reachable Number s"
| drop: "reachable Number s \<Longrightarrow> reachable Number (handleDrop Number rnd answer ty row col s)"
| remove: "reachable Number s \<Longrightarrow> reachable Number (removeGateAt row col s)"
| undone: "reachable Number s \<Longrightarrow> reachable Number (undo s)"
| cleared: "reachable Number s \<Longrightarrow> reachable Number (clearAll s)"
| resized: "reachable Number s \<Longrightarrow> reachable Number (qubitsOnChange Number v s)"

text \<open>The sort key of \<open>compareGates\<close>: column first, then target.\<close>

definition gateKey :: "gate \<Rightarrow> int \<times> int" where
  "gateKey g = (column g, target g)"


text \<open>An operation line is a line that starts with \<open>qc.\<close>; a comment line is not one.\<close>

definition isOperation :: "string \<Rightarrow> bool" where
  "isOperation l = (take 3 l = ''qc.'')"

section \<open>Sample inputs\<close>

text \<open>What \<open>Number\<close> gives on a few strings, to run the functions on concrete inputs.\<close>

definition sampleNumber :: "string \<Rightarrow> number" where
  "sampleNumber v =
     (if v = [] then Num 0 else if v = ''0'' then Num 0 else if v = ''1'' then Num 1
      else if v = ''2'' then Num 2 else if v = ''7'' then Num 7
      else if v = ''2.5'' then Num (5 / 2) else if v = ''20'' then Num 20
      else if v = ''60'' then Num 60 else if v = ''-3'' then Num (- 3)
      else if v = ''1e999'' then PosInfinity else NaN)"

definition hGate :: gate where
  "hGate = \<lparr>gate_id = ''H_k3x9q2a'', type = ''H'', column = 0, target = 1, control = None,
     pair = None, angle = None\<rparr>"

definition cnotGate :: gate where
  "cnotGate = \<lparr>gate_id = ''CNOT_p0w4zt1'', type = ''CNOT'', column = 0, target = 2,
     control = Some 1, pair = None, angle = None\<rparr>"

definition swapGate :: gate where
  "swapGate = \<lparr>gate_id = ''SWAP_m5c8d0e'', type = ''SWAP'', column = 1, target = 0,
     control = None, pair = Some 2, angle = None\<rparr>"

definition rxGate :: gate where
  "rxGate = \<lparr>gate_id = ''RX_q1h7d3s'', type = ''RX'', column = 0, target = 0,
     control = None, pair = None, angle = Some (Num (5 / 2))\<rparr>"

definition measureGate :: gate where
  "measureGate = \<lparr>gate_id = ''MEASURE_z9u2k4b'', type = ''MEASURE'', column = 2, target = 1,
     control = None, pair = None, angle = None\<rparr>"

definition wideGate :: gate where
  "wideGate = \<lparr>gate_id = ''RX_f6r0n8c'', type = ''RX'', column = 3, target = 0,
     control = None, pair = None, angle = Some (Num (2 ^ 60))\<rparr>"

definition sampleFmt :: "rat \<Rightarrow> string" where
  "sampleFmt q =
     (if q = 5 / 2 then ''2.5'' else if q = 2 ^ 60 then ''1152921504606847000'' else ''?'')"

definition fourGates :: state where
  "fourGates = initial\<lparr>gates := [swapGate, cnotGate, measureGate, rxGate]\<rparr>"

definition liveSession :: session where
  "liveSession = \<lparr>session_id = 4, kernel = Some 9\<rparr>"

definition connected :: state where
  "connected = initial\<lparr>python := ''print(1)'', jupyterSessionRef := Some liveSession\<rparr>"

definition sampleStart :: "start_request \<Rightarrow> string + session" where
  "sampleStart req = Inr \<lparr>session_id = 5, kernel = Some 11\<rparr>"

definition sampleReply :: "nat \<Rightarrow> execute_request \<Rightarrow> iopub list \<times> string option" where
  "sampleReply k req = ([Stream (Some ''1'')], None)"

definition emptyLog :: service_log where
  "emptyLog = \<lparr>started = [], executed = []\<rparr>"

definition oneGate :: state where
  "oneGate = initial\<lparr>gates := [hGate]\<rparr>"


section \<open>The cell key is injective\<close>

lemma digit_inj: "d < 10 \<Longrightarrow> e < 10 \<Longrightarrow> digit d = digit e \<Longrightarrow> d = e"
  by (simp add: digit_def split: if_splits) arith

lemma digit_not_colon: "digit d \<noteq> CHR '':''"
  by (simp add: digit_def)

lemma digit_not_minus: "digit d \<noteq> CHR ''-''"
  by (simp add: digit_def)

lemma show_nat_nonempty: "show_nat n \<noteq> []"
  by (subst show_nat.simps) simp

lemma show_nat_inj: "show_nat n = show_nat m \<Longrightarrow> n = m"
proof (induction n arbitrary: m rule: show_nat.induct)
  case (1 n)
  show ?case
  proof (cases "n < 10")
    case True
    show ?thesis
    proof (cases "m < 10")
      case mlt: True
      from "1.prems" True mlt have "digit n = digit m"
        by (subst (asm) show_nat.simps, subst (asm) (2) show_nat.simps) simp
      with True mlt show ?thesis by (simp add: digit_inj)
    next
      case False
      from "1.prems" True False have "[digit n] = show_nat (m div 10) @ [digit (m mod 10)]"
        by (subst (asm) show_nat.simps, subst (asm) (2) show_nat.simps) simp
      then have "show_nat (m div 10) = []" by (simp add: Cons_eq_append_conv)
      with show_nat_nonempty show ?thesis by blast
    qed
  next
    case False
    show ?thesis
    proof (cases "m < 10")
      case True
      from "1.prems" True False have "show_nat (n div 10) @ [digit (n mod 10)] = [digit m]"
        by (subst (asm) show_nat.simps, subst (asm) (2) show_nat.simps) simp
      then have "show_nat (n div 10) = []" by (simp add: append_eq_Cons_conv)
      with show_nat_nonempty show ?thesis by blast
    next
      case mge: False
      from "1.prems" False mge
      have "show_nat (n div 10) @ [digit (n mod 10)] = show_nat (m div 10) @ [digit (m mod 10)]"
        by (subst (asm) show_nat.simps, subst (asm) (2) show_nat.simps) simp
      then have a: "show_nat (n div 10) = show_nat (m div 10)"
        and b: "digit (n mod 10) = digit (m mod 10)" by simp_all
      from "1.IH" [OF False a] have "n div 10 = m div 10" .
      moreover from b have "n mod 10 = m mod 10" by (intro digit_inj) simp_all
      ultimately show ?thesis by (metis div_mult_mod_eq)
    qed
  qed
qed

lemma show_nat_chars: "c \<in> set (show_nat n) \<Longrightarrow> c \<noteq> CHR '':'' \<and> c \<noteq> CHR ''-''"
proof (induction n rule: show_nat.induct)
  case (1 n)
  show ?case
  proof (cases "n < 10")
    case True
    with "1.prems" have "c = digit n" by (subst (asm) show_nat.simps) simp
    then show ?thesis by (simp add: digit_not_colon digit_not_minus)
  next
    case False
    with "1.prems" have "c \<in> set (show_nat (n div 10)) \<or> c = digit (n mod 10)"
      by (subst (asm) show_nat.simps) auto
    with "1.IH" [OF False] show ?thesis by (auto simp add: digit_not_colon digit_not_minus)
  qed
qed

lemma show_int_inj: "show_int i = show_int j \<Longrightarrow> i = j"
proof -
  assume eq: "show_int i = show_int j"
  have hd_nat: "\<And>n. hd (show_nat n) \<noteq> CHR ''-''"
    using show_nat_chars show_nat_nonempty by (metis hd_in_set)
  show ?thesis
  proof (cases "i < 0")
    case True
    show ?thesis
    proof (cases "j < 0")
      case jneg: True
      with True eq have "show_nat (nat (- i)) = show_nat (nat (- j))" by (simp add: show_int_def)
      then have "nat (- i) = nat (- j)" by (rule show_nat_inj)
      with True jneg show ?thesis by simp
    next
      case False
      with True eq have "hd (show_nat (nat j)) = CHR ''-''"
        by (simp add: show_int_def) (metis list.sel(1))
      with hd_nat show ?thesis by blast
    qed
  next
    case False
    show ?thesis
    proof (cases "j < 0")
      case True
      with False eq have "hd (show_nat (nat i)) = CHR ''-''" by (simp add: show_int_def)
      with hd_nat show ?thesis by blast
    next
      case jpos: False
      with False eq have "show_nat (nat i) = show_nat (nat j)" by (simp add: show_int_def)
      then have "nat i = nat j" by (rule show_nat_inj)
      with False jpos show ?thesis by simp
    qed
  qed
qed

lemma show_int_no_colon: "CHR '':'' \<notin> set (show_int i)"
  using show_nat_chars by (auto simp add: show_int_def)

lemma cellKey_inj: "cellKey c r = cellKey c' r' \<longleftrightarrow> c = c' \<and> r = r'"
proof
  assume eq: "cellKey c r = cellKey c' r'"
  have "takeWhile (\<lambda>x. x \<noteq> CHR '':'') (cellKey c r) = show_int c" for c r
    using show_int_no_colon [of c] by (auto simp add: cellKey_def takeWhile_tail)
  with eq have c: "show_int c = show_int c'" by metis
  with eq have "show_int r = show_int r'" by (simp add: cellKey_def)
  with c show "c = c' \<and> r = r'" by (simp add: show_int_inj)
qed simp

section \<open>Occupancy and placement\<close>

lemma occupancy_step_dom:
  "(occupancy_step m g (cellKey col row) \<noteq> None) =
   (m (cellKey col row) \<noteq> None \<or> occupies g row col)"
  by (auto simp add: occupancy_step_def occupies_def Let_def cellKey_inj split: option.splits)

lemma foldl_occupancy_step_dom:
  "(foldl occupancy_step m gs (cellKey col row) \<noteq> None) =
   (m (cellKey col row) \<noteq> None \<or> (\<exists>g \<in> set gs. occupies g row col))"
proof (induction gs arbitrary: m)
  case Nil
  show ?case by simp
next
  case (Cons g gs)
  show ?case
    unfolding foldl_Cons Cons.IH occupancy_step_dom by auto
qed

lemma cellHasGate_iff: "cellHasGate s row col = occupied (gates s) row col"
  unfolding cellHasGate_def occupancy_def occupied_def foldl_occupancy_step_dom by simp

lemma placeGate_occupied:
  "placeGate g s =
     (if occupied (gates s) (target g) (column g) \<or>
         ((type g = ''CNOT'' \<or> type g = ''CZ'') \<and>
          (case control g of None \<Rightarrow> True | Some c \<Rightarrow> occupied (gates s) c (column g))) \<or>
         (type g = ''SWAP'' \<and>
          (case pair g of None \<Rightarrow> True | Some p \<Rightarrow> occupied (gates s) p (column g)))
      then (False, s)
      else (True, s\<lparr>gates := gates s @ [g]\<rparr>))"
  by (auto simp add: placeGate_def cellHasGate_iff split: option.splits)

lemma placeGate_cases:
  "placeGate g s = (False, s) \<or> placeGate g s = (True, s\<lparr>gates := gates s @ [g]\<rparr>)"
  by (simp add: placeGate_def)

text \<open>
  C4. \<open>placeGate\<close> returns false and leaves the state as it is when the target cell of the
  new gate is occupied, or the gate is a CNOT or CZ whose control is absent or whose control
  cell is occupied, or a SWAP whose pair is absent or whose pair cell is occupied; in every
  other case it returns true and the gate list is the old one with the new gate at its end.
  A cell is occupied when a gate of the list has it as target, as control (CNOT, CZ) or as
  pair (SWAP).
\<close>

theorem placeGate_spec:
  "placeGate g s =
     (if occupied (gates s) (target g) (column g) \<or>
         ((type g = ''CNOT'' \<or> type g = ''CZ'') \<and>
          (case control g of None \<Rightarrow> True | Some c \<Rightarrow> occupied (gates s) c (column g))) \<or>
         (type g = ''SWAP'' \<and>
          (case pair g of None \<Rightarrow> True | Some p \<Rightarrow> occupied (gates s) p (column g)))
      then (False, s)
      else (True, s\<lparr>gates := gates s @ [g]\<rparr>))"
proof -
  have target_cell: "cellHasGate s (target g) (column g) =
      occupied (gates s) (target g) (column g)"
    by (rule cellHasGate_iff)
  have other_cell: "cellHasGate s q (column g) = occupied (gates s) q (column g)" for q
    by (rule cellHasGate_iff)
  show ?thesis
    unfolding placeGate_def target_cell other_cell
    by (cases "control g"; cases "pair g") auto
qed

theorem placeGate_spec_witness:
  "occupied (gates oneGate) 1 0 \<and>
   placeGate cnotGate oneGate = (False, oneGate) \<and>
   placeGate swapGate oneGate = (True, oneGate\<lparr>gates := [hGate, swapGate]\<rparr>)"
proof -
  have gs: "gates oneGate = [hGate]" by (simp add: oneGate_def)
  have occ: "occupied [hGate] row col = (row = 1 \<and> col = 0)" for row col
    by (auto simp add: occupied_def occupies_def hGate_def)
  have "placeGate cnotGate oneGate = (False, oneGate)"
    using placeGate_spec [where g = cnotGate and s = oneGate]
    by (simp add: gs occ cnotGate_def)
  moreover have "placeGate swapGate oneGate = (True, oneGate\<lparr>gates := [hGate, swapGate]\<rparr>)"
    using placeGate_spec [where g = swapGate and s = oneGate]
    by (simp add: gs occ swapGate_def)
  ultimately show ?thesis by (simp add: gs occ)
qed

section \<open>Rejected drops\<close>

text \<open>
  C5. A drop of RX, RY or RZ whose prompt is cancelled or whose answer does not convert to a
  finite number, and a drop of CNOT, CZ or SWAP whose prompt is cancelled or whose answer
  converts to a number that is not an integer, is below 0, is at or above \<open>numQubits\<close> or
  equals the row of the drop, adds no gate: \<open>handleDrop\<close> returns the state it was given.
\<close>

theorem handleDrop_invalid:
  assumes "(ty \<in> {''RX'', ''RY'', ''RZ''} \<and>
            (case answer of None \<Rightarrow> True | Some input \<Rightarrow> \<not> isFinite (Number input))) \<or>
           (ty \<in> {''CNOT'', ''CZ'', ''SWAP''} \<and>
            (case answer of None \<Rightarrow> True
             | Some input \<Rightarrow>
                 \<not> isInteger (Number input) \<or> numLess (Number input) (Num 0) \<or>
                 numGreaterEq (Number input) (numQubits s) \<or>
                 strictEq (Number input) (Num (of_int row))))"
  shows "handleDrop Number rnd answer ty row col s = s \<and>
         gates (handleDrop Number rnd answer ty row col s) = gates s"
  using assms by (auto simp add: handleDrop_def split: option.splits)

theorem handleDrop_invalid_witness:
  "\<not> isFinite (sampleNumber ''abc'') \<and>
   handleDrop sampleNumber ''r1'' (Some ''abc'') ''RX'' 1 0 oneGate = oneGate \<and>
   numGreaterEq (sampleNumber ''7'') (numQubits oneGate) \<and>
   handleDrop sampleNumber ''r2'' (Some ''7'') ''CNOT'' 2 0 oneGate = oneGate \<and>
   handleDrop sampleNumber ''r3'' None ''SWAP'' 2 0 oneGate = oneGate"
proof -
  have a: "\<not> isFinite (sampleNumber ''abc'')" by (simp add: sampleNumber_def)
  have b: "numGreaterEq (sampleNumber ''7'') (numQubits oneGate)"
    by (simp add: sampleNumber_def oneGate_def initial_def numGreaterEq_def)
  from a have "handleDrop sampleNumber ''r1'' (Some ''abc'') ''RX'' 1 0 oneGate = oneGate"
    using handleDrop_invalid [where ty = "''RX''" and answer = "Some ''abc''"
        and Number = sampleNumber and s = oneGate and row = 1 and rnd = "''r1''" and col = 0]
    by simp
  moreover from b have "handleDrop sampleNumber ''r2'' (Some ''7'') ''CNOT'' 2 0 oneGate = oneGate"
    using handleDrop_invalid [where ty = "''CNOT''" and answer = "Some ''7''"
        and Number = sampleNumber and s = oneGate and row = 2 and rnd = "''r2''" and col = 0]
    by simp
  moreover have "handleDrop sampleNumber ''r3'' None ''SWAP'' 2 0 oneGate = oneGate"
    using handleDrop_invalid [where ty = "''SWAP''" and answer = None
        and Number = sampleNumber and s = oneGate and row = 2 and rnd = "''r3''" and col = 0]
    by simp
  ultimately show ?thesis using a b by simp
qed

section \<open>Undo and removal\<close>

text \<open>
  C8. When \<open>placeGate\<close> accepts a gate, \<open>undo\<close> of the state it returns is the state before
  the placement; and \<open>undo\<close> of an empty gate list leaves the gate list empty.
\<close>

theorem undo_placeGate:
  "(fst (placeGate g s) \<longrightarrow> undo (snd (placeGate g s)) = s) \<and>
   (gates s = [] \<longrightarrow> gates (undo s) = [])"
  by (simp add: placeGate_def undo_def)

theorem undo_placeGate_witness:
  "fst (placeGate swapGate oneGate) \<and> undo (snd (placeGate swapGate oneGate)) = oneGate \<and>
   gates initial = [] \<and> gates (undo initial) = []"
proof -
  have a: "fst (placeGate swapGate oneGate)"
    by (simp add: placeGate_occupied occupied_def occupies_def oneGate_def hGate_def
        swapGate_def)
  have b: "gates initial = []" by (simp add: initial_def)
  from undo_placeGate [where g = swapGate and s = oneGate]
    undo_placeGate [where g = swapGate and s = initial] a b
  show ?thesis by simp
qed

text \<open>
  C9. \<open>removeGateAt row col\<close> keeps, in their order, exactly the gates that do not occupy
  the cell: it removes the gates of column \<open>col\<close> whose target is \<open>row\<close>, or whose control
  is \<open>row\<close> (CNOT, CZ), or whose pair is \<open>row\<close> (SWAP), and changes nothing else of the
  state, so \<open>numQubits\<close> and \<open>numColumns\<close> stay.
\<close>

theorem removeGateAt_frame:
  "removeGateAt row col s = s\<lparr>gates := filter (\<lambda>g. \<not> occupies g row col) (gates s)\<rparr> \<and>
   numQubits (removeGateAt row col s) = numQubits s \<and>
   numColumns (removeGateAt row col s) = numColumns s"
proof -
  have "keepGate row col = (\<lambda>g. \<not> occupies g row col)"
    by (rule ext) (auto simp add: keepGate_def occupies_def)
  then show ?thesis by (simp add: removeGateAt_def)
qed

theorem removeGateAt_frame_witness:
  "removeGateAt 1 0 (initial\<lparr>gates := [hGate, swapGate, cnotGate]\<rparr>) =
     initial\<lparr>gates := [swapGate]\<rparr>"
  using removeGateAt_frame
    [where row = 1 and col = 0 and s = "initial\<lparr>gates := [hGate, swapGate, cnotGate]\<rparr>"]
  by (simp add: occupies_def hGate_def swapGate_def cnotGate_def)

section \<open>The grid never holds two gates in one cell\<close>

lemma placeGate_keeps:
  assumes inv: "sorted_wrt apart (gates s) \<and> (\<forall>h \<in> set (gates s). wellPlaced h)"
    and g: "wellPlaced g"
  shows "sorted_wrt apart (gates (snd (placeGate g s))) \<and>
         (\<forall>h \<in> set (gates (snd (placeGate g s))). wellPlaced h)"
proof (cases "fst (placeGate g s)")
  case False
  with placeGate_cases [of g s] have "snd (placeGate g s) = s" by auto
  with inv show ?thesis by simp
next
  case True
  with placeGate_cases [of g s] have new: "gates (snd (placeGate g s)) = gates s @ [g]"
    by auto
  from True have free: "\<not> occupied (gates s) (target g) (column g)"
    by (simp add: placeGate_occupied split: if_splits)
  from True have ctl: "\<exists>c. control g = Some c \<and> \<not> occupied (gates s) c (column g)"
    if "type g = ''CNOT'' \<or> type g = ''CZ''"
    using that by (cases "control g") (simp_all add: placeGate_occupied split: if_splits)
  from True have swp: "\<exists>p. pair g = Some p \<and> \<not> occupied (gates s) p (column g)"
    if "type g = ''SWAP''"
    using that by (cases "pair g") (simp_all add: placeGate_occupied split: if_splits)
  have "apart h g" if h: "h \<in> set (gates s)" for h
    unfolding apart_def
  proof (intro allI notI)
    fix row col
    assume both: "occupies h row col \<and> occupies g row col"
    then have "occupied (gates s) row col" using h by (auto simp add: occupied_def)
    moreover from both have "col = column g" by (simp add: occupies_def)
    moreover from both have "row = target g \<or>
        ((type g = ''CNOT'' \<or> type g = ''CZ'') \<and> control g = Some row) \<or>
        (type g = ''SWAP'' \<and> pair g = Some row)" by (auto simp add: occupies_def)
    ultimately show False using free ctl swp by auto
  qed
  with inv g new show ?thesis by (simp add: sorted_wrt_append)
qed

lemma asInteger_Some: "asInteger n = Some i \<Longrightarrow> n = Num (of_int i)"
  by (cases n) (auto split: if_splits)

lemma wellPlaced_other:
  assumes "\<not> strictEq n (Num (of_int row))"
  shows "wellPlaced \<lparr>gate_id = i, type = t, column = col, target = row,
        control = asInteger n, pair = None, angle = None\<rparr>"
    and "wellPlaced \<lparr>gate_id = i, type = t, column = col, target = row,
        control = None, pair = asInteger n, angle = None\<rparr>"
proof -
  have "asInteger n \<noteq> Some row"
  proof
    assume "asInteger n = Some row"
    then have "n = Num (of_int row)" by (rule asInteger_Some)
    with assms show False by (simp add: strictEq_def)
  qed
  then show "wellPlaced \<lparr>gate_id = i, type = t, column = col, target = row,
        control = asInteger n, pair = None, angle = None\<rparr>"
    and "wellPlaced \<lparr>gate_id = i, type = t, column = col, target = row,
        control = None, pair = asInteger n, angle = None\<rparr>"
    by (simp_all add: wellPlaced_def)
qed

lemma wellPlaced_plain:
  "wellPlaced \<lparr>gate_id = i, type = t, column = col, target = row,
        control = None, pair = None, angle = a\<rparr>"
  by (simp add: wellPlaced_def)

lemma handleDrop_cases:
  assumes "P s"
    and "\<And>g. wellPlaced g \<Longrightarrow> P (snd (placeGate g s))"
  shows "P (handleDrop Number rnd answer ty row col s)"
  unfolding handleDrop_def
  by (simp add: assms wellPlaced_other wellPlaced_plain split: option.splits)

text \<open>
  C6. In every state reached from an empty gate list by drops, removals, undo and clear, no
  two gates at different positions of the list occupy a common cell, and no gate has its
  control or its pair on its own target.
\<close>

theorem reachable_invariant:
  assumes "reachable Number s"
  shows "(\<forall>i j row col. i < length (gates s) \<and> j < length (gates s) \<and> i \<noteq> j \<longrightarrow>
            \<not> (occupies (gates s ! i) row col \<and> occupies (gates s ! j) row col)) \<and>
         (\<forall>g \<in> set (gates s). control g \<noteq> Some (target g) \<and> pair g \<noteq> Some (target g))"
proof -
  from assms have inv: "sorted_wrt apart (gates s) \<and> (\<forall>h \<in> set (gates s). wellPlaced h)"
  proof (induction rule: reachable.induct)
    case (start s)
    then show ?case by simp
  next
    case (drop s rnd answer ty row col)
    show ?case
    proof (rule handleDrop_cases
        [where P = "\<lambda>s. sorted_wrt apart (gates s) \<and> (\<forall>h \<in> set (gates s). wellPlaced h)"])
      show "sorted_wrt apart (gates s) \<and> (\<forall>h \<in> set (gates s). wellPlaced h)"
        by (rule drop.IH)
    next
      fix g
      assume "wellPlaced g"
      with drop.IH
      show "sorted_wrt apart (gates (snd (placeGate g s))) \<and>
            (\<forall>h \<in> set (gates (snd (placeGate g s))). wellPlaced h)"
        by (rule placeGate_keeps)
    qed
  next
    case (remove s row col)
    then show ?case by (simp add: removeGateAt_def sorted_wrt_filter)
  next
    case (undone s)
    then show ?case
      by (auto simp add: undo_def butlast_conv_take dest: in_set_takeD)
  next
    case (cleared s)
    show ?case by (simp add: clearAll_def)
  next
    case (resized s v)
    then show ?case by (simp add: qubitsOnChange_def)
  qed
  have sym: "apart g h \<Longrightarrow> apart h g" for g h by (auto simp add: apart_def)
  have "apart (gates s ! i) (gates s ! j)"
    if "i < length (gates s)" "j < length (gates s)" "i \<noteq> j" for i j
  proof (cases "i < j")
    case True
    with inv that show ?thesis by (simp add: sorted_wrt_iff_nth_less)
  next
    case False
    with that have "j < i" by simp
    with inv that have "apart (gates s ! j) (gates s ! i)" by (simp add: sorted_wrt_iff_nth_less)
    then show ?thesis by (rule sym)
  qed
  then have "\<forall>i j row col. i < length (gates s) \<and> j < length (gates s) \<and> i \<noteq> j \<longrightarrow>
            \<not> (occupies (gates s ! i) row col \<and> occupies (gates s ! j) row col)"
    unfolding apart_def by blast
  moreover from inv
  have "\<forall>g \<in> set (gates s). control g \<noteq> Some (target g) \<and> pair g \<noteq> Some (target g)"
    by (simp add: wellPlaced_def)
  ultimately show ?thesis by blast
qed

theorem reachable_invariant_witness:
  "reachable sampleNumber
     (handleDrop sampleNumber ''b7'' (Some ''1'') ''CNOT'' 2 0
       (handleDrop sampleNumber ''a1'' None ''H'' 1 1 initial)) \<and>
   gates (handleDrop sampleNumber ''b7'' (Some ''1'') ''CNOT'' 2 0
       (handleDrop sampleNumber ''a1'' None ''H'' 1 1 initial)) =
     [\<lparr>gate_id = ''H_a1'', type = ''H'', column = 1, target = 1, control = None,
        pair = None, angle = None\<rparr>,
      \<lparr>gate_id = ''CNOT_b7'', type = ''CNOT'', column = 0, target = 2, control = Some 1,
        pair = None, angle = None\<rparr>] \<and>
   \<not> (occupies (gates (handleDrop sampleNumber ''b7'' (Some ''1'') ''CNOT'' 2 0
         (handleDrop sampleNumber ''a1'' None ''H'' 1 1 initial)) ! 0) 1 0 \<and>
      occupies (gates (handleDrop sampleNumber ''b7'' (Some ''1'') ''CNOT'' 2 0
         (handleDrop sampleNumber ''a1'' None ''H'' 1 1 initial)) ! 1) 1 0)"
proof -
  let ?s = "handleDrop sampleNumber ''b7'' (Some ''1'') ''CNOT'' 2 0
       (handleDrop sampleNumber ''a1'' None ''H'' 1 1 initial)"
  have r: "reachable sampleNumber ?s"
    by (intro reachable.drop reachable.start) (simp add: initial_def)
  have first: "handleDrop sampleNumber ''a1'' None ''H'' 1 1 initial =
      initial\<lparr>gates := [\<lparr>gate_id = ''H_a1'', type = ''H'', column = 1, target = 1,
        control = None, pair = None, angle = None\<rparr>]\<rparr>"
    by (simp add: handleDrop_def placeGate_occupied occupied_def uid_def initial_def)
  have g: "gates ?s =
     [\<lparr>gate_id = ''H_a1'', type = ''H'', column = 1, target = 1, control = None,
        pair = None, angle = None\<rparr>,
      \<lparr>gate_id = ''CNOT_b7'', type = ''CNOT'', column = 0, target = 2, control = Some 1,
        pair = None, angle = None\<rparr>]"
    unfolding first
    by (simp add: handleDrop_def placeGate_occupied occupied_def occupies_def uid_def
        initial_def sampleNumber_def isInteger_def numGreaterEq_def strictEq_def)
  have len: "0 < length (gates ?s) \<and> 1 < length (gates ?s) \<and> (0::nat) \<noteq> 1"
    unfolding g by simp
  from reachable_invariant [OF r]
  have "\<not> (occupies (gates ?s ! 0) 1 0 \<and> occupies (gates ?s ! 1) 1 0)"
    using len by blast
  with r g show ?thesis by blast
qed

section \<open>The sorted gates\<close>

lemma insertSorted_insort_key:
  assumes "\<And>x y. (cmp x y \<le> 0) = (f x \<le> f y)"
  shows "insertSorted cmp x ys = insort_key f x ys"
  by (induction ys) (simp_all add: assms)

lemma sortBy_sort_key:
  assumes "\<And>x y. (cmp x y \<le> 0) = (f x \<le> f y)"
  shows "sortBy cmp xs = sort_key f xs"
proof -
  have "insertSorted cmp = insort_key f"
    by (intro ext) (rule insertSorted_insort_key [OF assms])
  then show ?thesis by (simp add: sortBy_def sort_key_def)
qed

lemma compareGates_le: "(compareGates a b \<le> 0) = (gateKey a \<le> gateKey b)"
  by (auto simp add: compareGates_def gateKey_def less_eq_prod_def)

lemma sortedGates_sort_key: "sortedGates gs = sort_key gateKey gs"
  unfolding sortedGates_def by (rule sortBy_sort_key) (rule compareGates_le)





lemma mset_sortedGates: "mset (sortedGates gs) = mset gs"
  by (simp add: sortedGates_sort_key)

lemma set_sortedGates: "set (sortedGates gs) = set gs"
  by (simp add: sortedGates_sort_key)





section \<open>The lines of the gates\<close>

lemma isOperation_comment: "\<not> isOperation (columnComment k)"
  by (simp add: isOperation_def columnComment_def)

lemma isOperation_gateLines: "l \<in> set (gateLines fmt g) \<Longrightarrow> isOperation l"
  by (simp add: gateLines_def isOperation_def split: if_splits)

lemma filter_gateLines: "filter isOperation (gateLines fmt g) = gateLines fmt g"
  by (simp add: filter_id_conv isOperation_gateLines)

lemma operations_columnLoop:
  "filter isOperation (columnLoop fmt c xs) = concat (map (gateLines fmt) xs)"
  by (induction xs arbitrary: c) (simp_all add: isOperation_comment filter_gateLines)


text \<open>
  C1. The operation lines of the per-column section are the lines of the gates, gate after
  gate in sorted order, and the line of a gate is fixed by its type: \<open>qc.h(t)\<close> for H on
  target \<open>t\<close>, and so for X, Y, Z, S and T; \<open>qc.rx(a, t)\<close> for RX with angle \<open>a\<close>, with \<open>0\<close>
  for \<open>a\<close> when the gate has no angle, and so for RY and RZ; \<open>qc.cx(c, t)\<close> for CNOT with
  control \<open>c\<close>, \<open>qc.cz(c, t)\<close> for CZ, \<open>qc.swap(t, p)\<close> for SWAP with pair \<open>p\<close>; each of these
  gates gives that one line and no other.
\<close>

theorem generatePython_templates:
  "python (generatePython fmt s) = concat (pythonLines fmt s) \<and>
   pythonLines fmt s =
     prologue fmt (numQubits s) @ columnSection fmt (gates s) @
     [''\<newline># Measurement\<newline>''] @ measureSection (gates s) @ [epilogue] \<and>
   filter isOperation (columnSection fmt (gates s)) =
     concat (map (gateLines fmt) (sortedGates (gates s))) \<and>
   mset (sortedGates (gates s)) = mset (gates s) \<and>
   (type g = ''H'' \<longrightarrow> gateLines fmt g = [''qc.h('' @ show_int (target g) @ '')\<newline>'']) \<and>
   (type g = ''X'' \<longrightarrow> gateLines fmt g = [''qc.x('' @ show_int (target g) @ '')\<newline>'']) \<and>
   (type g = ''Y'' \<longrightarrow> gateLines fmt g = [''qc.y('' @ show_int (target g) @ '')\<newline>'']) \<and>
   (type g = ''Z'' \<longrightarrow> gateLines fmt g = [''qc.z('' @ show_int (target g) @ '')\<newline>'']) \<and>
   (type g = ''S'' \<longrightarrow> gateLines fmt g = [''qc.s('' @ show_int (target g) @ '')\<newline>'']) \<and>
   (type g = ''T'' \<longrightarrow> gateLines fmt g = [''qc.t('' @ show_int (target g) @ '')\<newline>'']) \<and>
   (type g = ''RX'' \<longrightarrow> gateLines fmt g =
      [''qc.rx('' @ (case angle g of None \<Rightarrow> ''0'' | Some a \<Rightarrow> show_number fmt a) @ '', '' @
       show_int (target g) @ '')\<newline>'']) \<and>
   (type g = ''RY'' \<longrightarrow> gateLines fmt g =
      [''qc.ry('' @ (case angle g of None \<Rightarrow> ''0'' | Some a \<Rightarrow> show_number fmt a) @ '', '' @
       show_int (target g) @ '')\<newline>'']) \<and>
   (type g = ''RZ'' \<longrightarrow> gateLines fmt g =
      [''qc.rz('' @ (case angle g of None \<Rightarrow> ''0'' | Some a \<Rightarrow> show_number fmt a) @ '', '' @
       show_int (target g) @ '')\<newline>'']) \<and>
   (type g = ''CNOT'' \<and> control g = Some c \<longrightarrow> gateLines fmt g =
      [''qc.cx('' @ show_int c @ '', '' @ show_int (target g) @ '')\<newline>'']) \<and>
   (type g = ''CZ'' \<and> control g = Some c \<longrightarrow> gateLines fmt g =
      [''qc.cz('' @ show_int c @ '', '' @ show_int (target g) @ '')\<newline>'']) \<and>
   (type g = ''SWAP'' \<and> pair g = Some p \<longrightarrow> gateLines fmt g =
      [''qc.swap('' @ show_int (target g) @ '', '' @ show_int p @ '')\<newline>''])"
proof -
  have zero: "show_int 0 = ''0''"
    by (simp add: show_int_def show_nat.simps digit_def)
  have ops: "filter isOperation (columnSection fmt (gates s)) =
      concat (map (gateLines fmt) (sortedGates (gates s)))"
    by (simp add: columnSection_def operations_columnLoop)
  have whole: "python (generatePython fmt s) = concat (pythonLines fmt s)"
    "pythonLines fmt s =
     prologue fmt (numQubits s) @ columnSection fmt (gates s) @
     [''\<newline># Measurement\<newline>''] @ measureSection (gates s) @ [epilogue]"
    by (simp_all add: generatePython_def Let_def pythonLines_def)
  have rot: "show_number fmt (angleOrZero g) =
      (case angle g of None \<Rightarrow> ''0'' | Some a \<Rightarrow> show_number fmt a)"
    by (simp add: angleOrZero_def zero split: option.splits)
  have lines: "(type g = ''H'' \<longrightarrow> gateLines fmt g = [''qc.h('' @ show_int (target g) @ '')\<newline>'']) \<and>
   (type g = ''X'' \<longrightarrow> gateLines fmt g = [''qc.x('' @ show_int (target g) @ '')\<newline>'']) \<and>
   (type g = ''Y'' \<longrightarrow> gateLines fmt g = [''qc.y('' @ show_int (target g) @ '')\<newline>'']) \<and>
   (type g = ''Z'' \<longrightarrow> gateLines fmt g = [''qc.z('' @ show_int (target g) @ '')\<newline>'']) \<and>
   (type g = ''S'' \<longrightarrow> gateLines fmt g = [''qc.s('' @ show_int (target g) @ '')\<newline>'']) \<and>
   (type g = ''T'' \<longrightarrow> gateLines fmt g = [''qc.t('' @ show_int (target g) @ '')\<newline>'']) \<and>
   (type g = ''RX'' \<longrightarrow> gateLines fmt g =
      [''qc.rx('' @ show_number fmt (angleOrZero g) @ '', '' @
       show_int (target g) @ '')\<newline>'']) \<and>
   (type g = ''RY'' \<longrightarrow> gateLines fmt g =
      [''qc.ry('' @ show_number fmt (angleOrZero g) @ '', '' @
       show_int (target g) @ '')\<newline>'']) \<and>
   (type g = ''RZ'' \<longrightarrow> gateLines fmt g =
      [''qc.rz('' @ show_number fmt (angleOrZero g) @ '', '' @
       show_int (target g) @ '')\<newline>'']) \<and>
   (type g = ''CNOT'' \<and> control g = Some c \<longrightarrow> gateLines fmt g =
      [''qc.cx('' @ show_int c @ '', '' @ show_int (target g) @ '')\<newline>'']) \<and>
   (type g = ''CZ'' \<and> control g = Some c \<longrightarrow> gateLines fmt g =
      [''qc.cz('' @ show_int c @ '', '' @ show_int (target g) @ '')\<newline>'']) \<and>
   (type g = ''SWAP'' \<and> pair g = Some p \<longrightarrow> gateLines fmt g =
      [''qc.swap('' @ show_int (target g) @ '', '' @ show_int p @ '')\<newline>''])"
    by (simp add: gateLines_def show_optional_def)
  from whole ops mset_sortedGates [of "gates s"] lines [unfolded rot]
  show ?thesis by (intro conjI) simp_all
qed

theorem generatePython_templates_witness:
  "type rxGate = ''RX'' \<and>
   gateLines sampleFmt rxGate = [''qc.rx(2.5, 0)\<newline>''] \<and>
   type wideGate = ''RX'' \<and>
   gateLines sampleFmt wideGate = [''qc.rx(1152921504606847000, 0)\<newline>''] \<and>
   type cnotGate = ''CNOT'' \<and> control cnotGate = Some 1 \<and>
   gateLines sampleFmt cnotGate = [''qc.cx(1, 2)\<newline>''] \<and>
   filter isOperation (columnSection sampleFmt (gates fourGates)) =
     [''qc.rx(2.5, 0)\<newline>'', ''qc.cx(1, 2)\<newline>'', ''qc.swap(0, 2)\<newline>'']"
proof -
  have rx: "type rxGate = ''RX''" by (simp add: rxGate_def)
  have wide: "type wideGate = ''RX''" by (simp add: wideGate_def)
  have cx: "type cnotGate = ''CNOT'' \<and> control cnotGate = Some 1" by (simp add: cnotGate_def)
  have rxText: "[''qc.rx('' @ (case angle rxGate of None \<Rightarrow> ''0''
        | Some a \<Rightarrow> show_number sampleFmt a) @ '', '' @ show_int (target rxGate) @
        '')\<newline>''] = [''qc.rx(2.5, 0)\<newline>'']"
    by code_simp
  have wideText: "[''qc.rx('' @ (case angle wideGate of None \<Rightarrow> ''0''
        | Some a \<Rightarrow> show_number sampleFmt a) @ '', '' @ show_int (target wideGate) @
        '')\<newline>''] = [''qc.rx(1152921504606847000, 0)\<newline>'']"
    by code_simp
  have cxText: "[''qc.cx('' @ show_int 1 @ '', '' @ show_int (target cnotGate) @
        '')\<newline>''] = [''qc.cx(1, 2)\<newline>'']"
    by code_simp
  have ops: "concat (map (gateLines sampleFmt) (sortedGates (gates fourGates))) =
     [''qc.rx(2.5, 0)\<newline>'', ''qc.cx(1, 2)\<newline>'', ''qc.swap(0, 2)\<newline>'']"
    by code_simp
  note rxFacts = generatePython_templates
    [where g = rxGate and fmt = sampleFmt and s = fourGates]
  note wideFacts = generatePython_templates
    [where g = wideGate and fmt = sampleFmt and s = fourGates]
  note cxFacts = generatePython_templates
    [where g = cnotGate and fmt = sampleFmt and s = fourGates and c = 1]
  from rxFacts rx have "gateLines sampleFmt rxGate = [''qc.rx(2.5, 0)\<newline>'']"
    unfolding rxText [symmetric] by blast
  moreover from wideFacts wide
  have "gateLines sampleFmt wideGate = [''qc.rx(1152921504606847000, 0)\<newline>'']"
    unfolding wideText [symmetric] by blast
  moreover from cxFacts cx have "gateLines sampleFmt cnotGate = [''qc.cx(1, 2)\<newline>'']"
    unfolding cxText [symmetric] by blast
  moreover from rxFacts have "filter isOperation (columnSection sampleFmt (gates fourGates)) =
     [''qc.rx(2.5, 0)\<newline>'', ''qc.cx(1, 2)\<newline>'', ''qc.swap(0, 2)\<newline>'']"
    unfolding ops [symmetric] by blast
  ultimately show ?thesis using rx wide cx by blast
qed

section \<open>The measurement lines\<close>

lemma foldl_setAdd:
  "distinct acc \<Longrightarrow>
   distinct (foldl setAdd acc xs) \<and> set (foldl setAdd acc xs) = set acc \<union> set xs"
  by (induction xs arbitrary: acc) (auto simp add: setAdd_def)

lemma newSet_distinct: "distinct (newSet xs)" and newSet_set: "set (newSet xs) = set xs"
  using foldl_setAdd [of "[]" xs] by (simp_all add: newSet_def)

lemma sortBy_minus: "sortBy (\<lambda>a b. a - b) (ys :: int list) = sort ys"
  by (rule sortBy_sort_key) auto

lemma sort_distinct: "distinct (ys :: int list) \<Longrightarrow> sort ys = sorted_list_of_set (set ys)"
  by (simp add: sorted_list_of_set_sort_remdups distinct_remdups_id)

lemma set_markedMeasure:
  "set (markedMeasure gs) = target ` {g \<in> set gs. type g = ''MEASURE''}"
  by (simp add: markedMeasure_def newSet_set set_sortedGates)

lemma measureSection_sorted:
  "measureSection gs =
     (if \<exists>g \<in> set gs. type g = ''MEASURE''
      then map measureLine
             (sorted_list_of_set (target ` {g \<in> set gs. type g = ''MEASURE''}))
      else [measureLoop])"
proof -
  have "sortBy (\<lambda>a b. a - b) (markedMeasure gs) =
      sorted_list_of_set (target ` {g \<in> set gs. type g = ''MEASURE''})"
    unfolding sortBy_minus
    by (simp add: sort_distinct markedMeasure_def newSet_distinct
        set_markedMeasure [unfolded markedMeasure_def])
  moreover have "(markedMeasure gs \<noteq> []) = (\<exists>g \<in> set gs. type g = ''MEASURE'')"
    using set_markedMeasure [of gs] by (auto simp flip: set_empty)
  ultimately show ?thesis by (simp add: measureSection_def)
qed


text \<open>
  C2. A MEASURE gate gives no line in the per-column section. After that section and the
  comment that opens the measurement, the text has one line \<open>qc.measure(q, q)\<close> for each
  target \<open>q\<close> of a MEASURE gate, once each, in ascending order of \<open>q\<close>, when the list has a
  MEASURE gate, and the loop over \<open>range(n_qubits)\<close> that measures qubit \<open>q\<close> into bit \<open>q\<close>
  when it has none.
\<close>

theorem generatePython_measure:
  "(type g = ''MEASURE'' \<longrightarrow> gateLines fmt g = []) \<and>
   filter isOperation (columnSection fmt (gates s)) =
     concat (map (gateLines fmt) (sortedGates (gates s))) \<and>
   pythonLines fmt s =
     prologue fmt (numQubits s) @ columnSection fmt (gates s) @
     [''\<newline># Measurement\<newline>''] @
     (if \<exists>g \<in> set (gates s). type g = ''MEASURE''
      then map (\<lambda>q. ''qc.measure('' @ show_int q @ '', '' @ show_int q @ '')\<newline>'')
             (sorted_list_of_set (target ` {g \<in> set (gates s). type g = ''MEASURE''}))
      else [''for q in range(n_qubits):\<newline>    qc.measure(q, q)\<newline>'']) @
     [epilogue] \<and>
   python (generatePython fmt s) = concat (pythonLines fmt s)"
proof -
  have "measureLine = (\<lambda>q. ''qc.measure('' @ show_int q @ '', '' @ show_int q @ '')\<newline>'')"
    by (rule ext) (simp add: measureLine_def)
  then show ?thesis
    by (simp add: gateLines_def columnSection_def operations_columnLoop pythonLines_def
        measureSection_sorted measureLoop_def generatePython_def Let_def)
qed


theorem generatePython_measure_witness:
  "type measureGate = ''MEASURE'' \<and> gateLines sampleFmt measureGate = [] \<and>
   pythonLines sampleFmt fourGates =
     prologue sampleFmt (Num 3) @
     [''\<newline># --- Column 0 ---\<newline>'', ''qc.rx(2.5, 0)\<newline>'', ''qc.cx(1, 2)\<newline>'',
      ''\<newline># --- Column 1 ---\<newline>'', ''qc.swap(0, 2)\<newline>'',
      ''\<newline># --- Column 2 ---\<newline>'',
      ''\<newline># Measurement\<newline>'', ''qc.measure(1, 1)\<newline>'', epilogue] \<and>
   pythonLines sampleFmt oneGate =
     prologue sampleFmt (Num 3) @
     [''\<newline># --- Column 0 ---\<newline>'', ''qc.h(1)\<newline>'',
      ''\<newline># Measurement\<newline>'',
      ''for q in range(n_qubits):\<newline>    qc.measure(q, q)\<newline>'', epilogue]"
proof -
  have m: "type measureGate = ''MEASURE''" by (simp add: measureGate_def)
  have some: "\<exists>g \<in> set (gates fourGates). type g = ''MEASURE''"
    by (simp add: fourGates_def measureGate_def)
  have none: "\<not> (\<exists>g \<in> set (gates oneGate). type g = ''MEASURE'')"
    by (simp add: oneGate_def hGate_def)
  have "filter (\<lambda>g. type g = ''MEASURE'') (gates fourGates) = [measureGate]"
    by (simp add: fourGates_def measureGate_def swapGate_def cnotGate_def rxGate_def)
  then have "set (filter (\<lambda>g. type g = ''MEASURE'') (gates fourGates)) = {measureGate}"
    by simp
  then have targets: "target ` {g \<in> set (gates fourGates). type g = ''MEASURE''} = {1}"
    by (simp add: measureGate_def)
  have one: "show_int 1 = ''1''" by (simp add: show_int_def show_nat.simps digit_def)
  have four: "columnSection sampleFmt (gates fourGates) =
     [''\<newline># --- Column 0 ---\<newline>'', ''qc.rx(2.5, 0)\<newline>'', ''qc.cx(1, 2)\<newline>'',
      ''\<newline># --- Column 1 ---\<newline>'', ''qc.swap(0, 2)\<newline>'',
      ''\<newline># --- Column 2 ---\<newline>'']"
    by code_simp
  have single: "columnSection sampleFmt (gates oneGate) =
     [''\<newline># --- Column 0 ---\<newline>'', ''qc.h(1)\<newline>'']"
    by code_simp
  have q: "numQubits fourGates = Num 3" "numQubits oneGate = Num 3"
    by (simp_all add: fourGates_def oneGate_def initial_def)
  note a = generatePython_measure [where g = measureGate and fmt = sampleFmt and s = fourGates]
  note b = generatePython_measure [where g = measureGate and fmt = sampleFmt and s = oneGate]
  from a m have "gateLines sampleFmt measureGate = []" by blast
  moreover from a have "pythonLines sampleFmt fourGates =
     prologue sampleFmt (Num 3) @
     [''\<newline># --- Column 0 ---\<newline>'', ''qc.rx(2.5, 0)\<newline>'', ''qc.cx(1, 2)\<newline>'',
      ''\<newline># --- Column 1 ---\<newline>'', ''qc.swap(0, 2)\<newline>'',
      ''\<newline># --- Column 2 ---\<newline>'',
      ''\<newline># Measurement\<newline>'', ''qc.measure(1, 1)\<newline>'', epilogue]"
    using some by (simp add: targets one four q)
  moreover from b have "pythonLines sampleFmt oneGate =
     prologue sampleFmt (Num 3) @
     [''\<newline># --- Column 0 ---\<newline>'', ''qc.h(1)\<newline>'',
      ''\<newline># Measurement\<newline>'',
      ''for q in range(n_qubits):\<newline>    qc.measure(q, q)\<newline>'', epilogue]"
    using none by (simp add: single q)
  ultimately show ?thesis using m by blast
qed


section \<open>The column comments\<close>





section \<open>The number inputs\<close>

lemma clamp_cases:
  "(numLess n lo \<longrightarrow> Math_max lo (Math_min hi n) = lo) \<and>
   (numLess hi n \<longrightarrow> Math_max lo (Math_min hi n) = hi) \<and>
   (numGreaterEq n lo \<and> numGreaterEq hi n \<longrightarrow> Math_max lo (Math_min hi n) = n) \<and>
   (n \<noteq> NaN \<longrightarrow> numGreaterEq (Math_max lo (Math_min hi n)) lo \<and>
                 numGreaterEq hi (Math_max lo (Math_min hi n)))"
  if "lo = Num a" "hi = Num b" "a \<le> b"
  using that by (cases n) (auto simp add: Math_max_def Math_min_def numGreaterEq_def)

text \<open>
  C10. The handler of the Qubits input sets \<open>numQubits\<close> to \<open>Number(v)\<close> clamped into 1 to
  16: to 1 when the number is below 1, to 16 when it is above 16, to the number itself when
  it lies between them; and the handler of the Columns input does the same for \<open>numColumns\<close>
  with 1 and 48. Every number but NaN lands in the range. (NaN is stored as NaN; a number
  input hands over the empty string or a valid floating-point number, neither of which
  converts to NaN.)
\<close>

theorem number_inputs_clamp:
  "(numLess (Number v) (Num 1) \<longrightarrow> numQubits (qubitsOnChange Number v s) = Num 1) \<and>
   (numLess (Num 16) (Number v) \<longrightarrow> numQubits (qubitsOnChange Number v s) = Num 16) \<and>
   (numGreaterEq (Number v) (Num 1) \<and> numGreaterEq (Num 16) (Number v) \<longrightarrow>
      numQubits (qubitsOnChange Number v s) = Number v) \<and>
   (Number v \<noteq> NaN \<longrightarrow>
      numGreaterEq (numQubits (qubitsOnChange Number v s)) (Num 1) \<and>
      numGreaterEq (Num 16) (numQubits (qubitsOnChange Number v s))) \<and>
   (numLess (Number v) (Num 1) \<longrightarrow> numColumns (columnsOnChange Number v s) = Num 1) \<and>
   (numLess (Num 48) (Number v) \<longrightarrow> numColumns (columnsOnChange Number v s) = Num 48) \<and>
   (numGreaterEq (Number v) (Num 1) \<and> numGreaterEq (Num 48) (Number v) \<longrightarrow>
      numColumns (columnsOnChange Number v s) = Number v) \<and>
   (Number v \<noteq> NaN \<longrightarrow>
      numGreaterEq (numColumns (columnsOnChange Number v s)) (Num 1) \<and>
      numGreaterEq (Num 48) (numColumns (columnsOnChange Number v s)))"
proof -
  have q: "numQubits (qubitsOnChange Number v s) = Math_max (Num 1) (Math_min (Num 16) (Number v))"
    by (simp add: qubitsOnChange_def)
  have c: "numColumns (columnsOnChange Number v s) =
      Math_max (Num 1) (Math_min (Num 48) (Number v))"
    by (simp add: columnsOnChange_def)
  have "(1::rat) \<le> 16" "(1::rat) \<le> 48" by simp_all
  from clamp_cases [OF refl refl this(1), of "Number v"]
    clamp_cases [OF refl refl this(2), of "Number v"]
  show ?thesis unfolding q c by blast
qed

theorem number_inputs_clamp_witness:
  "numLess (sampleNumber []) (Num 1) \<and>
   numQubits (qubitsOnChange sampleNumber [] initial) = Num 1 \<and>
   numLess (Num 16) (sampleNumber ''20'') \<and>
   numQubits (qubitsOnChange sampleNumber ''20'' initial) = Num 16 \<and>
   numGreaterEq (sampleNumber ''7'') (Num 1) \<and> numGreaterEq (Num 16) (sampleNumber ''7'') \<and>
   numQubits (qubitsOnChange sampleNumber ''7'' initial) = Num 7 \<and>
   numLess (Num 48) (sampleNumber ''60'') \<and>
   numColumns (columnsOnChange sampleNumber ''60'' initial) = Num 48 \<and>
   numColumns (columnsOnChange sampleNumber ''20'' initial) = Num 20"
proof -
  have a: "numLess (sampleNumber []) (Num 1)" by (simp add: sampleNumber_def)
  have b: "numLess (Num 16) (sampleNumber ''20'')" by (simp add: sampleNumber_def)
  have c: "numGreaterEq (sampleNumber ''7'') (Num 1) \<and> numGreaterEq (Num 16) (sampleNumber ''7'')"
    by (simp add: sampleNumber_def numGreaterEq_def)
  have d: "numLess (Num 48) (sampleNumber ''60'')" by (simp add: sampleNumber_def)
  have e: "numGreaterEq (sampleNumber ''20'') (Num 1) \<and>
      numGreaterEq (Num 48) (sampleNumber ''20'')"
    by (simp add: sampleNumber_def numGreaterEq_def)
  have v: "sampleNumber ''7'' = Num 7" "sampleNumber ''20'' = Num 20"
    by (simp_all add: sampleNumber_def)
  from number_inputs_clamp [where Number = sampleNumber and v = "[]" and s = initial] a
  have "numQubits (qubitsOnChange sampleNumber [] initial) = Num 1" by blast
  moreover
  from number_inputs_clamp [where Number = sampleNumber and v = "''20''" and s = initial] b e
  have "numQubits (qubitsOnChange sampleNumber ''20'' initial) = Num 16"
    and "numColumns (columnsOnChange sampleNumber ''20'' initial) = Num 20"
    unfolding v [symmetric] by blast+
  moreover
  from number_inputs_clamp [where Number = sampleNumber and v = "''7''" and s = initial] c
  have "numQubits (qubitsOnChange sampleNumber ''7'' initial) = Num 7"
    unfolding v [symmetric] by blast
  moreover
  from number_inputs_clamp [where Number = sampleNumber and v = "''60''" and s = initial] d
  have "numColumns (columnsOnChange sampleNumber ''60'' initial) = Num 48" by blast
  ultimately show ?thesis using a b c d by blast
qed

section \<open>Reuse of the notebook session\<close>

lemma ensure_stored:
  assumes "jupyterSessionRef s = Some current" "kernel current = Some k"
  shows "ensureJupyterSession startNew s w = (Inr current, s, w)"
  using assms by (simp add: ensureJupyterSession_def)

lemma ensure_result:
  assumes "ensureJupyterSession startNew s w = (Inr session, s', w')"
  shows "jupyterSessionRef s' = Some session"
  using assms
  by (auto simp add: ensureJupyterSession_def startSession_def Let_def
      split: option.splits if_splits sum.splits)

text \<open>
  C7. When a session with a kernel is stored, \<open>ensureJupyterSession\<close> returns that session,
  starts none and leaves the state as it is; whenever a call has returned a session with a
  kernel, the next call returns the same session and changes nothing; and \<open>runOnJupyter\<close>
  then sends one execute request, to the kernel of the stored session, whose code is the
  \<open>python\<close> text of the state it is called in, as it is.
\<close>

theorem jupyter_session_reuse:
  assumes "jupyterSessionRef s = Some current" "kernel current = Some k"
  shows "ensureJupyterSession startNew s w = (Inr current, s, w) \<and>
     (ensureJupyterSession startNew s0 w0 = (Inr session, s1, w1) \<and> kernel session \<noteq> None \<longrightarrow>
        ensureJupyterSession startNew s1 w1 = (Inr session, s1, w1)) \<and>
     snd (runOnJupyter fmt startNew reply nullError s w) =
       w\<lparr>executed := executed w @ [(k, \<lparr>code = python s, stop_on_error = True\<rparr>)]\<rparr>"
proof -
  have first: "ensureJupyterSession startNew s w = (Inr current, s, w)"
    using assms by (rule ensure_stored)
  have again: "ensureJupyterSession startNew s1 w1 = (Inr session, s1, w1)"
    if "ensureJupyterSession startNew s0 w0 = (Inr session, s1, w1)" "kernel session \<noteq> None"
  proof -
    from that(1) have "jupyterSessionRef s1 = Some session" by (rule ensure_result)
    moreover from that(2) obtain k' where "kernel session = Some k'" by auto
    ultimately show ?thesis by (rule ensure_stored)
  qed
  let ?s1 = "if python s = [] then generatePython fmt s else s"
  let ?s2 = "?s1\<lparr>jupyterBusy := True, jupyterOut := []\<rparr>"
  have "jupyterSessionRef ?s2 = Some current"
    using assms(1) by (simp add: generatePython_def Let_def)
  then have "ensureJupyterSession startNew ?s2 w = (Inr current, ?s2, w)"
    using assms(2) by (rule ensure_stored)
  then have run: "snd (runOnJupyter fmt startNew reply nullError s w) =
       w\<lparr>executed := executed w @ [(k, \<lparr>code = python s, stop_on_error = True\<rparr>)]\<rparr>"
    unfolding runOnJupyter_def Let_def using assms(2)
    by (simp split: option.splits)
  from first again run show ?thesis by blast
qed

theorem jupyter_session_reuse_witness:
  "jupyterSessionRef connected = Some liveSession \<and> kernel liveSession = Some 9 \<and>
   ensureJupyterSession sampleStart connected emptyLog = (Inr liveSession, connected, emptyLog) \<and>
   snd (runOnJupyter sampleFmt sampleStart sampleReply ''TypeError'' connected emptyLog) =
     \<lparr>started = [], executed = [(9, \<lparr>code = ''print(1)'', stop_on_error = True\<rparr>)]\<rparr>"
proof -
  have a: "jupyterSessionRef connected = Some liveSession" by (simp add: connected_def)
  have b: "kernel liveSession = Some 9" by (simp add: liveSession_def)
  have c: "python connected = ''print(1)''" by (simp add: connected_def)
  from jupyter_session_reuse [OF a b, where startNew = sampleStart and w = emptyLog
      and fmt = sampleFmt and reply = sampleReply and nullError = "''TypeError''"]
  show ?thesis using a b by (simp add: c emptyLog_def)
qed

end
